theory Spec2Isabelle
  imports Complex_Main "HOL-Library.Signed_Division"
begin

section \<open>The simulation engine of \<open>src/app/api/simulate/route.ts\<close>\<close>

text \<open>
  JavaScript numbers are IEEE doubles. The integer-valued quantities of the program (the
  generator state, counts, indices) are modelled exactly, by \<open>int\<close> and \<open>nat\<close>: for a seed
  below \<open>2^53 / 9301\<close> in absolute value every product the generator forms is an exact
  double, and after the first call every state is below \<open>233280\<close> in absolute value. All other numbers are modelled by the reals, so
  rounding, \<open>NaN\<close> and the infinities are outside the model: \<open>Math.log\<close>, \<open>Math.sqrt\<close>,
  \<open>Math.exp\<close>, \<open>Math.cos\<close> and \<open>Math.pow\<close> are \<open>ln\<close>, \<open>sqrt\<close>, \<open>exp\<close>, \<open>cos\<close> and \<open>powr\<close>,
  which agree with them, up to rounding, on the arguments where the JavaScript result is a
  number. Where a theorem depends on that, it has the hypothesis that keeps the arguments
  there. A \<open>for\<close> loop that pushes to an array is a \<open>fold\<close> that appends; a \<open>while\<close> loop is
  a recursive function.
\<close>

subsection \<open>Data model (the types module)\<close>

record SimulationParameters =
  randomSeed :: int
  numSimulations :: nat
  numObservations :: nat
  numCurrencies :: nat
  basePrice :: real
  transactionFee :: real
  trendVariance :: real
  trendCovariance :: real
  baseVolatility :: real
  volatilityCovariance :: real
  extremeEventProbability :: real
  extremeEventVariance :: real
  extremeEventCovariance :: real
  extremeEventDuration :: nat

record SimulationData =
  prices :: "real list list"
  trends :: "real list"
  volatilities :: "real list"
  extremeEvent :: bool
  extremeEventIndex :: "int option"
  realizedVolatility :: real
  effectiveTrends :: "real list"

record SimulationResult =
  simulations :: "SimulationData list"
  params :: SimulationParameters

text \<open>The handler answers with the result, or with status 500 when its body throws.\<close>

datatype error = TypeError

datatype response = Ok SimulationResult | Failed

subsection \<open>The seeded generator (lines 29-44)\<close>

text \<open>
  \<open>seedState = (seedState * 9301 + 49297) % 233280; return seedState / 233280\<close>.
  JavaScript's \<open>%\<close> takes the sign of the dividend: it is \<open>smod\<close>. The state is local
  to one call of the handler and is threaded explicitly.
\<close>

definition seededRandom :: "int \<Rightarrow> real \<times> int" where
  "seededRandom seedState =
     (let seedState' = (seedState * 9301 + 49297) smod 233280
      in (real_of_int seedState' / 233280, seedState'))"

text \<open>\<open>let u = 0; while (u === 0) u = seededRandom()\<close>: at least one draw.\<close>

function seededRandomNonzero :: "int \<Rightarrow> real \<times> int" where
  "seededRandomNonzero seedState =
     (case seededRandom seedState of
        (u, seedState') \<Rightarrow> if u = 0 then seededRandomNonzero seedState' else (u, seedState'))"
  by pat_completeness auto
termination
  by (relation "measure (\<lambda>s. if fst (seededRandom s) = 0 then 1 else 0)")
     (auto simp: seededRandom_def Let_def signed_modulo_int_def)

declare seededRandomNonzero.simps [simp del]

definition seededNormalRandom :: "int \<Rightarrow> real \<times> int" where
  "seededNormalRandom seedState =
     (case seededRandomNonzero seedState of
        (u, s1) \<Rightarrow>
          (case seededRandomNonzero s1 of
             (v, s2) \<Rightarrow> (sqrt (- 2 * ln u) * cos (2 * pi * v), s2)))"


subsection \<open>Downsampling (lines 290-302)\<close>

definition samplePath :: "real list \<Rightarrow> nat \<Rightarrow> real list" where
  "samplePath path targetLength =
     (if length path \<le> targetLength then path
      else
        (let step = real (length path) / real targetLength
         in fold (\<lambda>i result.
                    result @ [path ! nat (min \<lfloor>real i * step\<rfloor> (int (length path) - 1))])
              [0..<targetLength] []))"


subsection \<open>Correlated normal vectors (lines 164-221)\<close>

text \<open>
  The generator is a closure over hidden state: a function from a state to the value
  drawn and the next state. \<open>while (u === 0) u = randomGenerator()\<close> need not end for
  an arbitrary generator, so the loop is a partial function and \<open>None\<close> is divergence.
\<close>

partial_function (option) drawUntilNonzero :: "('s \<Rightarrow> real \<times> 's) \<Rightarrow> 's \<Rightarrow> (real \<times> 's) option" where
  "drawUntilNonzero randomGenerator s =
     (case randomGenerator s of
        (u, s') \<Rightarrow> if u = 0 then drawUntilNonzero randomGenerator s' else Some (u, s'))"

text \<open>The loop of lines 202-208: \<open>n\<close> Box-Muller values, pushed in the order drawn.\<close>

fun drawNormals :: "('s \<Rightarrow> real \<times> 's) \<Rightarrow> nat \<Rightarrow> 's \<Rightarrow> (real list \<times> 's) option" where
  "drawNormals randomGenerator 0 s = Some ([], s)"
| "drawNormals randomGenerator (Suc k) s =
     (case drawUntilNonzero randomGenerator s of
        None \<Rightarrow> None
      | Some (u, s1) \<Rightarrow>
          (case drawUntilNonzero randomGenerator s1 of
             None \<Rightarrow> None
           | Some (v, s2) \<Rightarrow>
               (case drawNormals randomGenerator k s2 of
                  None \<Rightarrow> None
                | Some (z, s3) \<Rightarrow> Some (sqrt (- 2 * ln u) * cos (2 * pi * v) # z, s3))))"

text \<open>
  Lines 185-198: \<open>L\<close> starts as \<open>n\<close> rows of \<open>n\<close> zeros and is filled by assignment. The
  rows are distinct arrays. (\<open>covMatrix\<close>, lines 172-182, is built and never read.)
\<close>

definition choleskyL :: "nat \<Rightarrow> real \<Rightarrow> real \<Rightarrow> real list list" where
  "choleskyL n variance covariance =
     (let L0 = replicate n (replicate n (0::real));
          sqrtVar = sqrt variance;
          sqrtCov = sqrt (max 0 covariance);
          L1 = L0[0 := (L0 ! 0)[0 := sqrtVar]]
      in fold (\<lambda>i L. L[i := ((L ! i)[0 := sqrtCov])[i := sqrt (max 0 (variance - covariance))]])
           [1..<n] L1)"

text \<open>Lines 211-218: \<open>sum\<close> runs over \<open>j \<le> i\<close> only.\<close>

definition correlate :: "nat \<Rightarrow> real \<Rightarrow> real list list \<Rightarrow> real list \<Rightarrow> real list" where
  "correlate n mean L z =
     fold (\<lambda>i result. result @ [mean + fold (\<lambda>j sum. sum + L ! i ! j * z ! j) [0..<Suc i] 0])
       [0..<n] []"

text \<open>
  With \<open>n = 0\<close> the array \<open>L\<close> is empty and the assignment \<open>L[0][0] = sqrtVar\<close> throws a
  \<open>TypeError\<close> before anything is drawn.
\<close>

definition generateMultivariateNormal ::
  "nat \<Rightarrow> real \<Rightarrow> real \<Rightarrow> real \<Rightarrow> ('s \<Rightarrow> real \<times> 's) \<Rightarrow> 's \<Rightarrow> (error + real list \<times> 's) option" where
  "generateMultivariateNormal n mean variance covariance randomGenerator s =
     (if n = 0 then Some (Inl TypeError)
      else
        (case drawNormals randomGenerator n s of
           None \<Rightarrow> None
         | Some (z, s') \<Rightarrow>
             Some (Inr (correlate n mean (choleskyL n variance covariance) z, s'))))"



subsection \<open>Metrics (lines 134-138 and 224-237)\<close>

definition calculateRealizedVolatilityFromLogPrices :: "real list \<Rightarrow> real" where
  "calculateRealizedVolatilityFromLogPrices logPrices =
     (let logReturns =
            fold (\<lambda>i acc. acc @ [logPrices ! i - logPrices ! (i - 1)]) [1..<length logPrices] [];
          mean = fold (\<lambda>r sum. sum + r) logReturns 0 / real (length logReturns);
          variance =
            fold (\<lambda>r sum. sum + (r - mean)\<^sup>2) logReturns 0 / (real (length logReturns) - 1);
          stdDev = sqrt variance
      in stdDev * sqrt 252)"

text \<open>The function mapped over \<open>prices\<close> at lines 134-138.\<close>

definition effectiveTrend :: "real list \<Rightarrow> real" where
  "effectiveTrend pricePath =
     (let totalReturn = pricePath ! (length pricePath - 1) / pricePath ! 0 - 1;
          timeInYears = (real (length pricePath) - 1) / 252
      in (1 + totalReturn) powr (1 / timeInYears) - 1)"

text \<open>
  The effective trend as the specification words it, for a number of periods per year.
\<close>

definition effectiveTrend_spec :: "real \<Rightarrow> real list \<Rightarrow> real" where
  "effectiveTrend_spec periodsPerYear priceSeries =
     (let yearsElapsed = real (length priceSeries) / periodsPerYear
      in (last priceSeries / hd priceSeries) powr (1 / yearsElapsed) - 1)"

subsection \<open>One price path (lines 87-128)\<close>

text \<open>One iteration of the loop over \<open>t\<close>, lines 96-122.\<close>

definition pathStep ::
  "real \<Rightarrow> real \<Rightarrow> bool \<Rightarrow> int \<Rightarrow> nat \<Rightarrow> real list \<Rightarrow> nat \<Rightarrow> nat
     \<Rightarrow> real list \<times> real list \<times> int \<Rightarrow> real list \<times> real list \<times> int" where
  "pathStep mu sigma event eventStart duration eventShocks c t =
     (\<lambda>(pricePath, logPricePath, s).
        case seededNormalRandom s of
          (g, s') \<Rightarrow>
            (let dt = 1 / 252;
                 dW = sqrt dt * g;
                 drift = (mu - 0.5 * sigma * sigma) * dt;
                 diffusion = sigma * dW;
                 logReturn = drift + diffusion;
                 logReturn' =
                   (if event \<and> eventStart \<le> int t
                       \<and> int t < eventStart + int duration
                    then
                      (let eventProgress =
                             real_of_int (int t - eventStart) / real duration;
                           decayFactor = exp (- 3 * eventProgress)
                       in logReturn + eventShocks ! c * decayFactor * dt)
                    else logReturn);
                 newLogPrice = logPricePath ! (t - 1) + logReturn';
                 newPrice = exp newLogPrice
             in (pricePath @ [max newPrice 0.01], logPricePath @ [newLogPrice], s')))"

text \<open>
  One iteration of the loop over \<open>c\<close>: the full-resolution paths, and what is pushed
  to \<open>prices\<close> and \<open>logPrices\<close>.
\<close>

definition fullPaths ::
  "SimulationParameters \<Rightarrow> real list \<Rightarrow> real list \<Rightarrow> bool \<Rightarrow> int \<Rightarrow> real list \<Rightarrow> nat \<Rightarrow> int
     \<Rightarrow> real list \<times> real list \<times> int" where
  "fullPaths p trendComponents volatilityComponents event eventStart
      eventShocks c s =
     (case seededRandom s of
        (u, s1) \<Rightarrow>
          (let initialPrice = basePrice p * (0.5 + u);
               mu = trendComponents ! c;
               sigma = volatilityComponents ! c
           in fold (pathStep mu sigma event eventStart (extremeEventDuration p)
                      eventShocks c)
                [1..<numObservations p] ([initialPrice], [ln initialPrice], s1)))"

definition simulateCurrency ::
  "SimulationParameters \<Rightarrow> real list \<Rightarrow> real list \<Rightarrow> bool \<Rightarrow> int \<Rightarrow> real list \<Rightarrow> nat
     \<Rightarrow> real list list \<times> real list list \<times> int \<Rightarrow> real list list \<times> real list list \<times> int" where
  "simulateCurrency p trendComponents volatilityComponents event eventStart
      eventShocks c =
     (\<lambda>(pricesAcc, logPricesAcc, s).
        case fullPaths p trendComponents volatilityComponents event eventStart
               eventShocks c s of
          (pricePath, logPricePath, s') \<Rightarrow>
            (let sampledPath = samplePath pricePath (min 500 (numObservations p))
             in (pricesAcc @ [sampledPath],
                 logPricesAcc @ [samplePath logPricePath (min 500 (numObservations p))], s')))"

subsection \<open>One run and the handler (lines 4-161)\<close>

text \<open>
  The body of the loop over \<open>sim\<close>, from the generator state at its start to the run and
  the state at its end. A \<open>TypeError\<close> of the vector generator propagates.
\<close>

definition simulateRun :: "SimulationParameters \<Rightarrow> int \<Rightarrow> (error + SimulationData \<times> int) option" where
  "simulateRun p s0 =
     (case generateMultivariateNormal (numCurrencies p) 0 (trendVariance p) (trendCovariance p)
             seededNormalRandom s0 of
        None \<Rightarrow> None
      | Some (Inl e) \<Rightarrow> Some (Inl e)
      | Some (Inr (trendComponents, s1)) \<Rightarrow>
     (case generateMultivariateNormal (numCurrencies p) (baseVolatility p / 100)
             ((baseVolatility p / 100)\<^sup>2 * 0.1) (volatilityCovariance p / 10000)
             seededNormalRandom s1 of
        None \<Rightarrow> None
      | Some (Inl e) \<Rightarrow> Some (Inl e)
      | Some (Inr (vs, s2)) \<Rightarrow>
     (let volatilityComponents = map abs vs in
      case seededRandom s2 of
        (u, s3) \<Rightarrow>
     (let event = (u < extremeEventProbability p) in
      case (if event
            then (case seededRandom s3 of
                    (u', s') \<Rightarrow>
                      (\<lfloor>u' * real_of_int (int (numObservations p) - int (extremeEventDuration p))\<rfloor>,
                       s'))
            else (- 1, s3)) of
        (eventStart, s4) \<Rightarrow>
     (case (if event
            then generateMultivariateNormal (numCurrencies p) (- 0.1)
                   (extremeEventVariance p / 10000) (extremeEventCovariance p / 10000)
                   seededNormalRandom s4
            else Some (Inr ([], s4))) of
        None \<Rightarrow> None
      | Some (Inl e) \<Rightarrow> Some (Inl e)
      | Some (Inr (eventShocks, s5)) \<Rightarrow>
     (case fold (simulateCurrency p trendComponents volatilityComponents event eventStart
                   eventShocks)
             [0..<numCurrencies p] ([], [], s5) of
        (pricesAcc, logPricesAcc, s6) \<Rightarrow>
          Some (Inr
            (\<lparr>prices = pricesAcc,
              trends = trendComponents,
              volatilities = volatilityComponents,
              extremeEvent = event,
              extremeEventIndex = (if event then Some eventStart else None),
              realizedVolatility =
                calculateRealizedVolatilityFromLogPrices (logPricesAcc ! 0) * 100,
              effectiveTrends = map effectiveTrend pricesAcc\<rparr>,
             s6))))))))"

text \<open>The loop over \<open>sim\<close>: the state left by one run is the state the next one starts from.\<close>

fun runSimulations ::
  "SimulationParameters \<Rightarrow> nat \<Rightarrow> int \<Rightarrow> (error + SimulationData list) option" where
  "runSimulations p 0 s = Some (Inr [])"
| "runSimulations p (Suc k) s =
     (case simulateRun p s of
        None \<Rightarrow> None
      | Some (Inl e) \<Rightarrow> Some (Inl e)
      | Some (Inr (run, s')) \<Rightarrow>
          (case runSimulations p k s' of
             None \<Rightarrow> None
           | Some (Inl e) \<Rightarrow> Some (Inl e)
           | Some (Inr runs) \<Rightarrow> Some (Inr (run # runs))))"

text \<open>
  The host's own generator, \<open>Math.random\<close>, is state outside the handler: the values it
  will return next, in order. The helpers of lines 247-271 draw from it.
\<close>

type_synonym host = "nat \<Rightarrow> real"

definition Math_random :: "host \<Rightarrow> real \<times> host" where
  "Math_random h = (h 0, \<lambda>k. h (Suc k))"

definition generateNormalRandom :: "host \<Rightarrow> (real \<times> host) option" where
  "generateNormalRandom h =
     (case drawUntilNonzero Math_random h of
        None \<Rightarrow> None
      | Some (u, h1) \<Rightarrow>
          (case drawUntilNonzero Math_random h1 of
             None \<Rightarrow> None
           | Some (v, h2) \<Rightarrow> Some (sqrt (- 2 * ln u) * cos (2 * pi * v), h2)))"

text \<open>
  The handler: \<open>seedState\<close> is a local variable initialised from the request, the loop
  runs, and a thrown error becomes the status 500 answer. It is given the host's
  generator as every function of the module is, and hands it back.
\<close>

definition POST :: "SimulationParameters \<Rightarrow> host \<Rightarrow> response option \<times> host" where
  "POST p h =
     (case runSimulations p (numSimulations p) (randomSeed p) of
        None \<Rightarrow> (None, h)
      | Some (Inl e) \<Rightarrow> (Some Failed, h)
      | Some (Inr sims) \<Rightarrow> (Some (Ok \<lparr>simulations = sims, params = p\<rparr>), h))"

subsection \<open>The form's default values\<close>

text \<open>
  The values the parameter form starts from (\<open>defaultValues\<close> of the sidebar component),
  under the field names the handler reads.
\<close>

definition defaultValues :: SimulationParameters where
  "defaultValues =
     \<lparr>randomSeed = 2151, numSimulations = 100, numObservations = 60 * 24 * 7 * 26,
      numCurrencies = 5, basePrice = 2000, transactionFee = 0.0006,
      trendVariance = 0.012 * 0.012, trendCovariance = 0.007 * 0.007,
      baseVolatility = 3, volatilityCovariance = 1.75,
      extremeEventProbability = 0.05, extremeEventVariance = 500,
      extremeEventCovariance = 450, extremeEventDuration = 60 * 24\<rparr>"

section \<open>Auxiliary facts\<close>

lemma fold_push: "fold (\<lambda>i result. result @ [f i]) xs acc = acc @ map f xs"
  by (induction xs arbitrary: acc) simp_all


subsection \<open>The seeded generator\<close>

lemma seededRandom_state:
  "0 \<le> s \<Longrightarrow> 0 \<le> snd (seededRandom s) \<and> snd (seededRandom s) < 233280"
  by (simp add: seededRandom_def Let_def signed_modulo_int_def)

lemma seededRandom_value:
  "fst (seededRandom s) = real_of_int (snd (seededRandom s)) / 233280"
  by (simp add: seededRandom_def Let_def)

lemma seededRandom_unit:
  "0 \<le> s \<Longrightarrow> 0 \<le> fst (seededRandom s) \<and> fst (seededRandom s) < 1"
  using seededRandom_state [of s] by (simp add: seededRandom_value)

lemma seededRandom_zero: "seededRandom 0 = (49297 / 233280, 49297)"
  by (simp add: seededRandom_def signed_modulo_int_def)

text \<open>The resampling loop draws once, or twice when the first draw is the state \<open>0\<close>.\<close>

lemma seededRandomNonzero_cases:
  "seededRandomNonzero s =
     (if snd (seededRandom s) = 0 then (49297 / 233280, 49297) else seededRandom s)"
proof (cases "snd (seededRandom s) = 0")
  case True
  then have a: "seededRandom s = (0, 0)"
    by (simp add: seededRandom_def Let_def)
  have "seededRandomNonzero s = seededRandomNonzero 0"
    by (subst seededRandomNonzero.simps) (simp add: a)
  also have "\<dots> = (49297 / 233280, 49297)"
    by (subst seededRandomNonzero.simps) (simp add: seededRandom_zero)
  finally show ?thesis using True by simp
next
  case False
  then have "fst (seededRandom s) \<noteq> 0"
    by (simp add: seededRandom_value)
  then have "seededRandomNonzero s = seededRandom s"
    by (subst seededRandomNonzero.simps) (auto split: prod.splits)
  then show ?thesis using False by simp
qed

lemma seededRandomNonzero_range:
  assumes "0 \<le> s"
  shows "0 < fst (seededRandomNonzero s) \<and> fst (seededRandomNonzero s) < 1
         \<and> 0 < snd (seededRandomNonzero s) \<and> snd (seededRandomNonzero s) < 233280
         \<and> fst (seededRandomNonzero s) = real_of_int (snd (seededRandomNonzero s)) / 233280"
  using seededRandom_state [OF assms]
  by (auto simp: seededRandomNonzero_cases seededRandom_value)


subsection \<open>Downsampling\<close>

lemma samplePath_short: "length path \<le> targetLength \<Longrightarrow> samplePath path targetLength = path"
  by (simp add: samplePath_def)

lemma position_floor: "\<lfloor>real i * (real n / real m)\<rfloor> = int (i * n div m)"
proof -
  have "real i * (real n / real m) = real (i * n) / real m" by simp
  then show ?thesis by (simp only: floor_divide_of_nat_eq)
qed

lemma position_in_range:
  assumes "i < m" and "0 < n"
  shows "i * n div m < (n::nat)"
proof -
  have "0 < m" using assms by simp
  moreover have "i * n < n * m" using assms by simp
  ultimately show ?thesis by (simp add: div_less_iff_less_mult)
qed

lemma position_increasing:
  assumes "i < j" and "m < (n::nat)" and "0 < m"
  shows "i * n div m < j * n div m"
proof -
  have "i * n + m \<le> j * n"
  proof -
    have "Suc i * n \<le> j * n" using assms(1) by (intro mult_le_mono1) simp
    then show ?thesis using assms(2) by simp
  qed
  then have "(i * n + m) div m \<le> j * n div m" by (rule div_le_mono)
  then show ?thesis using assms(3) by simp
qed

text \<open>The clamp \<open>Math.min(_, path.length - 1)\<close> never fires: the floor is already in range.\<close>

lemma samplePath_long:
  assumes "targetLength < length path"
  shows "samplePath path targetLength =
           map (\<lambda>i. path ! (i * length path div targetLength)) [0..<targetLength]"
proof -
  have "nat (min \<lfloor>real i * (real (length path) / real targetLength)\<rfloor> (int (length path) - 1))
          = i * length path div targetLength" if "i < targetLength" for i
  proof -
    have "i * length path div targetLength < length path"
      using that assms by (intro position_in_range) auto
    then show ?thesis unfolding position_floor by simp
  qed
  then show ?thesis using assms
    by (simp add: samplePath_def fold_push Let_def)
qed

subsection \<open>The correlated generator\<close>








text \<open>
  The resampling loop over an arbitrary generator returns as soon as a draw is not zero:
  it returns exactly when some later draw is not zero.
\<close>

lemma drawUntilNonzero_now:
  "fst (gen s) \<noteq> 0 \<Longrightarrow> drawUntilNonzero gen s = Some (gen s)"
  by (subst drawUntilNonzero.simps) (auto split: prod.splits)

lemma drawUntilNonzero_later:
  "fst (gen s) = 0 \<Longrightarrow> drawUntilNonzero gen s = drawUntilNonzero gen (snd (gen s))"
  by (subst drawUntilNonzero.simps) (auto split: prod.splits)




subsection \<open>The seeded normal generator as the generator of the vectors\<close>

text \<open>
  Over the reals a value of \<open>seededNormalRandom\<close> is zero exactly when its cosine is, at
  the states \<open>58320\<close> and \<open>174960\<close>; the draw after either is not zero, so the resampling
  loops of the vector generator end after at most two draws. (The cosine JavaScript
  computes at a quarter turn is not exactly zero: there the program takes one draw where
  the model takes two.)
\<close>

lemma seededNormalRandom_state:
  assumes "0 \<le> s"
  shows "0 \<le> snd (seededNormalRandom s)"
proof -
  obtain u s1 where u: "seededRandomNonzero s = (u, s1)" by (cases "seededRandomNonzero s")
  obtain v s2 where v: "seededRandomNonzero s1 = (v, s2)" by (cases "seededRandomNonzero s1")
  have "0 \<le> s1" using seededRandomNonzero_range [OF assms] u by simp
  then have "0 \<le> s2" using seededRandomNonzero_range [of s1] v by simp
  then show ?thesis by (simp add: seededNormalRandom_def u v)
qed

lemma cos_zero_unit:
  assumes "0 < v" and "v < 1" and "cos (2 * pi * v) = 0"
  shows "v = 1 / 4 \<or> v = 3 / 4"
proof -
  obtain i :: int where i: "odd i" "2 * pi * v = of_int i * (pi / 2)"
    using assms(3) by (auto simp: cos_zero_iff_int)
  have "pi * (2 * v) = pi * (of_int i / 2)" using i(2) by (simp add: algebra_simps)
  then have v: "2 * v = of_int i / 2" using pi_neq_zero mult_left_cancel by blast
  then have "0 < real_of_int i" "real_of_int i < 4" using assms by auto
  then have "0 < i" "i < 4" by linarith+
  then have "i = 1 \<or> i = 3" using i(1) by (cases "i = 2") auto
  then show ?thesis using v by auto
qed

lemma seededNormalRandom_zero_state:
  assumes "0 \<le> s" and "fst (seededNormalRandom s) = 0"
  shows "snd (seededNormalRandom s) = 58320 \<or> snd (seededNormalRandom s) = 174960"
proof -
  obtain u s1 where u: "seededRandomNonzero s = (u, s1)" by (cases "seededRandomNonzero s")
  obtain v s2 where v: "seededRandomNonzero s1 = (v, s2)" by (cases "seededRandomNonzero s1")
  have ur: "0 < u" "u < 1" "0 \<le> s1" using seededRandomNonzero_range [OF assms(1)] u by simp_all
  have vr: "0 < v" "v < 1" "v = real_of_int s2 / 233280"
    using seededRandomNonzero_range [OF ur(3)] v by simp_all
  have "ln u < 0" using ur by simp
  then have "sqrt (- 2 * ln u) \<noteq> 0" by simp
  moreover have "sqrt (- 2 * ln u) * cos (2 * pi * v) = 0"
    using assms(2) by (simp add: seededNormalRandom_def u v)
  ultimately have "cos (2 * pi * v) = 0" by simp
  then have "v = 1 / 4 \<or> v = 3 / 4" using vr by (intro cos_zero_unit)
  then have "s2 = 58320 \<or> s2 = 174960" using vr(3) by auto
  then show ?thesis by (simp add: seededNormalRandom_def u v)
qed

lemma seededNormalRandom_after_zero:
  "fst (seededNormalRandom 58320) \<noteq> 0" "fst (seededNormalRandom 174960) \<noteq> 0"
proof -
  have a: "snd (seededNormalRandom 58320) = 223814"
    by (simp add: seededNormalRandom_def seededRandomNonzero_cases seededRandom_def
          signed_modulo_int_def)
  have b: "snd (seededNormalRandom 174960) = 107174"
    by (simp add: seededNormalRandom_def seededRandomNonzero_cases seededRandom_def
          signed_modulo_int_def)
  show "fst (seededNormalRandom 58320) \<noteq> 0"
    using seededNormalRandom_zero_state [of 58320] a by auto
  show "fst (seededNormalRandom 174960) \<noteq> 0"
    using seededNormalRandom_zero_state [of 174960] b by auto
qed

lemma drawUntilNonzero_seeded:
  assumes "0 \<le> s"
  shows "\<exists>u s'. drawUntilNonzero seededNormalRandom s = Some (u, s') \<and> 0 \<le> s'"
proof (cases "fst (seededNormalRandom s) = 0")
  case False
  then have "drawUntilNonzero seededNormalRandom s = Some (seededNormalRandom s)"
    by (rule drawUntilNonzero_now)
  then show ?thesis
    using seededNormalRandom_state [OF assms] by (cases "seededNormalRandom s") simp
next
  case True
  let ?s1 = "snd (seededNormalRandom s)"
  have s1: "?s1 = 58320 \<or> ?s1 = 174960"
    using assms True by (rule seededNormalRandom_zero_state)
  then have nz: "fst (seededNormalRandom ?s1) \<noteq> 0"
    using seededNormalRandom_after_zero by auto
  have "drawUntilNonzero seededNormalRandom s = drawUntilNonzero seededNormalRandom ?s1"
    using True by (rule drawUntilNonzero_later)
  also have "\<dots> = Some (seededNormalRandom ?s1)"
    using nz by (rule drawUntilNonzero_now)
  finally show ?thesis
    using seededNormalRandom_state [of ?s1] s1 by (cases "seededNormalRandom ?s1") auto
qed

lemma drawNormals_seeded:
  assumes "0 \<le> s"
  shows "\<exists>z s'. drawNormals seededNormalRandom n s = Some (z, s') \<and> length z = n \<and> 0 \<le> s'"
  using assms
proof (induction n arbitrary: s)
  case 0
  then show ?case by simp
next
  case (Suc n)
  obtain u s1 where u: "drawUntilNonzero seededNormalRandom s = Some (u, s1)" "0 \<le> s1"
    using drawUntilNonzero_seeded [OF Suc.prems] by blast
  obtain v s2 where v: "drawUntilNonzero seededNormalRandom s1 = Some (v, s2)" "0 \<le> s2"
    using drawUntilNonzero_seeded [OF u(2)] by blast
  obtain z s3 where z: "drawNormals seededNormalRandom n s2 = Some (z, s3)" "length z = n" "0 \<le> s3"
    using Suc.IH [OF v(2)] by blast
  show ?case by (simp add: u v z)
qed

lemma correlate_length: "length (correlate n mean L z) = n"
  by (simp add: correlate_def fold_push)

lemma generateMultivariateNormal_seeded:
  assumes "0 \<le> s" and "0 < n"
  shows "\<exists>xs s'. generateMultivariateNormal n mean variance covariance seededNormalRandom s
                    = Some (Inr (xs, s')) \<and> length xs = n \<and> 0 \<le> s'"
proof -
  obtain z s' where "drawNormals seededNormalRandom n s = Some (z, s')" "0 \<le> s'"
    using drawNormals_seeded [OF assms(1)] by blast
  then show ?thesis using assms(2)
    by (simp add: generateMultivariateNormal_def correlate_length)
qed

lemma generateMultivariateNormal_seeded_result:
  assumes "0 \<le> s"
    and "generateMultivariateNormal n mean variance covariance seededNormalRandom s
           = Some (Inr (xs, s'))"
  shows "length xs = n \<and> 0 \<le> s' \<and> 0 < n"
proof -
  have n: "0 < n" using assms(2) by (cases "n = 0") (simp_all add: generateMultivariateNormal_def)
  then show ?thesis
    using generateMultivariateNormal_seeded [OF assms(1) n, of mean variance covariance] assms(2)
    by auto
qed

text \<open>
  The handler passes \<open>seededNormalRandom\<close> as the generator of the vectors, so the
  Box-Muller transform inside \<open>generateMultivariateNormal\<close> is applied to normal draws,
  not to uniform ones. For the seed \<open>0\<close> the first of them is negative: JavaScript's
  \<open>Math.log\<close> of it is \<open>NaN\<close>, a value the reals do not have. The theorems about runs
  below are about the numbers the model computes; they say nothing of a \<open>NaN\<close>.
\<close>

lemma cos_negative_middle:
  assumes "1 / 4 < v" and "v < 3 / 4"
  shows "cos (2 * pi * v) < 0"
proof -
  have "- (pi / 2) < pi * (2 * v - 1)"
  proof -
    have "pi * (- (1 / 2)) < pi * (2 * v - 1)"
      using assms(1) by (intro mult_strict_left_mono) simp_all
    then show ?thesis by simp
  qed
  moreover have "pi * (2 * v - 1) < pi / 2"
  proof -
    have "pi * (2 * v - 1) < pi * (1 / 2)"
      using assms(2) by (intro mult_strict_left_mono) simp_all
    then show ?thesis by simp
  qed
  ultimately have "0 < cos (pi * (2 * v - 1))" by (rule cos_gt_zero_pi)
  moreover have "pi * (2 * v - 1) = 2 * pi * v - pi" by (simp add: algebra_simps)
  ultimately show ?thesis by simp
qed

lemma handler_generator_not_uniform:
  "fst (seededNormalRandom 0) < 0
   \<and> drawUntilNonzero seededNormalRandom 0 = Some (seededNormalRandom 0)"
proof -
  have a: "seededRandomNonzero 0 = (49297 / 233280, 49297)"
    by (simp add: seededRandomNonzero_cases seededRandom_def signed_modulo_int_def)
  have b: "seededRandomNonzero 49297 = (165494 / 233280, 165494)"
    by (simp add: seededRandomNonzero_cases seededRandom_def signed_modulo_int_def)
  have n: "seededNormalRandom 0
             = (sqrt (- 2 * ln (49297 / 233280)) * cos (2 * pi * (165494 / 233280)), 165494)"
    by (simp add: seededNormalRandom_def a b)
  have "ln (49297 / 233280 :: real) < 0" by simp
  then have r: "0 < sqrt (- 2 * ln (49297 / 233280 :: real))" by simp
  have c: "cos (2 * pi * (165494 / 233280)) < 0"
    by (rule cos_negative_middle) simp_all
  have neg: "fst (seededNormalRandom 0) < 0"
    unfolding n fst_conv using r c by (rule mult_pos_neg)
  then have "drawUntilNonzero seededNormalRandom 0 = Some (seededNormalRandom 0)"
    by (intro drawUntilNonzero_now) simp
  then show ?thesis using neg by simp
qed

subsection \<open>Price paths\<close>

lemma pathStep_result:
  "\<exists>x y. pathStep mu sigma event eventStart duration eventShocks c t (P, LP, s)
            = (P @ [x], LP @ [y], snd (seededNormalRandom s)) \<and> 0.01 \<le> x"
  by (cases "seededNormalRandom s") (simp add: pathStep_def Let_def)

lemma fold_pathStep:
  "\<exists>xs ys s'. fold (pathStep mu sigma event eventStart duration eventShocks c) ts (P, LP, s)
                 = (P @ xs, LP @ ys, s')
        \<and> length xs = length ts \<and> length ys = length ts
        \<and> (\<forall>x\<in>set xs. 0.01 \<le> x) \<and> (0 \<le> s \<longrightarrow> 0 \<le> s')"
proof (induction ts arbitrary: P LP s)
  case Nil
  then show ?case by simp
next
  case (Cons t ts)
  obtain x y where st: "pathStep mu sigma event eventStart duration eventShocks c t (P, LP, s)
                          = (P @ [x], LP @ [y], snd (seededNormalRandom s))" and x: "0.01 \<le> x"
    using pathStep_result by blast
  obtain xs ys s' where
    r: "fold (pathStep mu sigma event eventStart duration eventShocks c) ts
          (P @ [x], LP @ [y], snd (seededNormalRandom s)) = ((P @ [x]) @ xs, (LP @ [y]) @ ys, s')"
    and l: "length xs = length ts" "length ys = length ts"
    and b: "\<forall>x\<in>set xs. 0.01 \<le> x"
    and i: "0 \<le> snd (seededNormalRandom s) \<longrightarrow> 0 \<le> s'"
    using Cons.IH by blast
  have "fold (pathStep mu sigma event eventStart duration eventShocks c) (t # ts) (P, LP, s)
          = (P @ (x # xs), LP @ (y # ys), s')"
    by (simp add: st r)
  moreover have "0 \<le> s \<longrightarrow> 0 \<le> s'" using i seededNormalRandom_state by blast
  ultimately show ?case using l b x
    by (intro exI [of _ "x # xs"] exI [of _ "y # ys"] exI [of _ s']) simp
qed

lemma fullPaths_result:
  "\<exists>xs ys s'. fullPaths p tr vol event eventStart eventShocks c s
                 = (basePrice p * (0.5 + fst (seededRandom s)) # xs,
                    ln (basePrice p * (0.5 + fst (seededRandom s))) # ys, s')
        \<and> length xs = numObservations p - 1 \<and> length ys = numObservations p - 1
        \<and> (\<forall>x\<in>set xs. 0.01 \<le> x) \<and> (0 \<le> s \<longrightarrow> 0 \<le> s')"
proof -
  let ?i = "basePrice p * (0.5 + fst (seededRandom s))"
  obtain xs ys s' where
    r: "fold (pathStep (tr ! c) (vol ! c) event eventStart (extremeEventDuration p) eventShocks c)
          [1..<numObservations p] ([?i], [ln ?i], snd (seededRandom s))
          = ([?i] @ xs, [ln ?i] @ ys, s')"
    and l: "length xs = length [1..<numObservations p]" "length ys = length [1..<numObservations p]"
    and b: "\<forall>x\<in>set xs. 0.01 \<le> x"
    and i: "0 \<le> snd (seededRandom s) \<longrightarrow> 0 \<le> s'"
    using fold_pathStep by blast
  have "fullPaths p tr vol event eventStart eventShocks c s = (?i # xs, ln ?i # ys, s')"
    using r by (cases "seededRandom s") (simp add: fullPaths_def Let_def)
  moreover have "0 \<le> s \<longrightarrow> 0 \<le> s'" using i seededRandom_state by blast
  ultimately show ?thesis using l b by auto
qed

lemma samplePath_length: "length (samplePath path targetLength) = min (length path) targetLength"
  by (cases "length path \<le> targetLength") (simp_all add: samplePath_short samplePath_long)

lemma samplePath_first_kept:
  assumes "path \<noteq> []" and "1 \<le> targetLength"
  shows "samplePath path targetLength \<noteq> [] \<and> samplePath path targetLength ! 0 = path ! 0"
proof (cases "length path \<le> targetLength")
  case True
  then show ?thesis using assms by (simp add: samplePath_short)
next
  case False
  then have "samplePath path targetLength
               = map (\<lambda>i. path ! (i * length path div targetLength)) [0..<targetLength]"
    by (simp add: samplePath_long)
  then show ?thesis using assms by simp
qed

lemma samplePath_later:
  assumes "1 \<le> k" and "k < length (samplePath (x # xs) targetLength)"
  shows "samplePath (x # xs) targetLength ! k \<in> set xs"
proof (cases "length (x # xs) \<le> targetLength")
  case True
  then have "samplePath (x # xs) targetLength = x # xs" by (rule samplePath_short)
  then show ?thesis using assms by (cases k) simp_all
next
  case False
  then have long: "targetLength < length (x # xs)" by simp
  have k: "k < targetLength" using assms(2) by (simp add: samplePath_length)
  let ?j = "k * length (x # xs) div targetLength"
  have "0 * length (x # xs) div targetLength < ?j"
    using assms(1) long k by (intro position_increasing) simp_all
  then have pos: "0 < ?j" by simp
  have lt: "?j < length (x # xs)" using k by (intro position_in_range) simp_all
  have "samplePath (x # xs) targetLength ! k = (x # xs) ! ?j"
    using k by (simp add: samplePath_long [OF long])
  also have "\<dots> = xs ! (?j - 1)" using pos by (cases ?j) simp_all
  also have "\<dots> \<in> set xs" using pos lt by (intro nth_mem) simp
  finally show ?thesis .
qed

lemma simulateCurrency_result:
  assumes "0 \<le> s"
  shows "\<exists>row lrow s'. simulateCurrency p tr vol event eventStart eventShocks c (P, LP, s)
                         = (P @ [row], LP @ [lrow], s')
        \<and> (length row = min 500 (numObservations p)
           \<and> (\<forall>k. 1 \<le> k \<and> k < length row \<longrightarrow> 0.01 \<le> row ! k)
           \<and> (1 \<le> numObservations p \<longrightarrow>
                 row \<noteq> [] \<and> (\<exists>u. 0 \<le> u \<and> u < 1 \<and> row ! 0 = basePrice p * (0.5 + u))))
        \<and> length lrow = min 500 (numObservations p)
        \<and> 0 \<le> s'"
proof -
  let ?i = "basePrice p * (0.5 + fst (seededRandom s))"
  let ?T = "min 500 (numObservations p)"
  obtain xs ys s' where
    f: "fullPaths p tr vol event eventStart eventShocks c s = (?i # xs, ln ?i # ys, s')"
    and l: "length xs = numObservations p - 1" "length ys = numObservations p - 1"
    and b: "\<forall>x\<in>set xs. 0.01 \<le> x" and i: "0 \<le> s'"
    using fullPaths_result [of p tr vol event eventStart eventShocks c s] assms by blast
  have sc: "simulateCurrency p tr vol event eventStart eventShocks c (P, LP, s)
              = (P @ [samplePath (?i # xs) ?T], LP @ [samplePath (ln ?i # ys) ?T], s')"
    by (simp add: simulateCurrency_def f Let_def)
  have l1: "length (samplePath (?i # xs) ?T) = ?T"
    using l by (simp add: samplePath_length)
  have l2: "length (samplePath (ln ?i # ys) ?T) = ?T"
    using l by (simp add: samplePath_length)
  have later: "\<forall>k. 1 \<le> k \<and> k < length (samplePath (?i # xs) ?T)
                  \<longrightarrow> 0.01 \<le> samplePath (?i # xs) ?T ! k"
    using samplePath_later [of _ ?i xs ?T] b by blast
  have first: "1 \<le> numObservations p \<longrightarrow>
                 samplePath (?i # xs) ?T \<noteq> []
                 \<and> (\<exists>u. 0 \<le> u \<and> u < 1 \<and> samplePath (?i # xs) ?T ! 0 = basePrice p * (0.5 + u))"
  proof
    assume "1 \<le> numObservations p"
    then have "1 \<le> ?T" by simp
    then have "samplePath (?i # xs) ?T \<noteq> [] \<and> samplePath (?i # xs) ?T ! 0 = (?i # xs) ! 0"
      by (intro samplePath_first_kept) simp_all
    then show "samplePath (?i # xs) ?T \<noteq> []
                 \<and> (\<exists>u. 0 \<le> u \<and> u < 1 \<and> samplePath (?i # xs) ?T ! 0 = basePrice p * (0.5 + u))"
      using seededRandom_unit [OF assms] by auto
  qed
  from sc l1 later first l2 i show ?thesis
    by - (intro exI conjI, assumption+)
qed

lemma fold_simulateCurrency_gen:
  assumes step: "\<And>c P LP s. 0 \<le> s \<Longrightarrow>
            \<exists>row lrow s'. simulateCurrency p tr vol event eventStart eventShocks c (P, LP, s)
                             = (P @ [row], LP @ [lrow], s') \<and> Q row \<and> Q' lrow \<and> 0 \<le> s'"
    and "0 \<le> s"
  shows "\<exists>rows lrows s'. fold (simulateCurrency p tr vol event eventStart eventShocks) cs (P, LP, s)
                         = (P @ rows, LP @ lrows, s')
        \<and> length rows = length cs \<and> length lrows = length cs
        \<and> (\<forall>row\<in>set rows. Q row) \<and> (\<forall>lrow\<in>set lrows. Q' lrow) \<and> 0 \<le> s'"
  using assms(2)
proof (induction cs arbitrary: P LP s)
  case Nil
  then show ?case by simp
next
  case (Cons c cs)
  obtain row lrow s1 where
    st: "simulateCurrency p tr vol event eventStart eventShocks c (P, LP, s)
           = (P @ [row], LP @ [lrow], s1)"
    and pr: "Q row" "Q' lrow" and s1: "0 \<le> s1"
    using step [OF Cons.prems] by blast
  obtain rows lrows s' where
    r: "fold (simulateCurrency p tr vol event eventStart eventShocks) cs (P @ [row], LP @ [lrow], s1)
          = ((P @ [row]) @ rows, (LP @ [lrow]) @ lrows, s')"
    and l: "length rows = length cs" "length lrows = length cs"
    and q: "\<forall>row\<in>set rows. Q row" and q': "\<forall>lrow\<in>set lrows. Q' lrow"
    and s': "0 \<le> s'"
    using Cons.IH [OF s1] by blast
  have "fold (simulateCurrency p tr vol event eventStart eventShocks) (c # cs) (P, LP, s)
          = (P @ (row # rows), LP @ (lrow # lrows), s')"
    by (simp add: st r)
  then show ?case using l q q' s' pr
    by (intro exI [of _ "row # rows"] exI [of _ "lrow # lrows"] exI [of _ s']) simp
qed

subsection \<open>Runs\<close>

lemma simulateRun_cases:
  assumes "simulateRun p s0 = Some (Inr (r, s6))"
  obtains tr s1 vs s2 st s4 sh s5 P LP where
    "generateMultivariateNormal (numCurrencies p) 0 (trendVariance p) (trendCovariance p)
       seededNormalRandom s0 = Some (Inr (tr, s1))"
    "generateMultivariateNormal (numCurrencies p) (baseVolatility p / 100)
       ((baseVolatility p / 100)\<^sup>2 * 0.1) (volatilityCovariance p / 10000)
       seededNormalRandom s1 = Some (Inr (vs, s2))"
    "(if fst (seededRandom s2) < extremeEventProbability p
      then (\<lfloor>fst (seededRandom (snd (seededRandom s2)))
               * real_of_int (int (numObservations p) - int (extremeEventDuration p))\<rfloor>,
            snd (seededRandom (snd (seededRandom s2))))
      else (- 1, snd (seededRandom s2))) = (st, s4)"
    "(if fst (seededRandom s2) < extremeEventProbability p
      then generateMultivariateNormal (numCurrencies p) (- 0.1)
             (extremeEventVariance p / 10000) (extremeEventCovariance p / 10000)
             seededNormalRandom s4
      else Some (Inr ([], s4))) = Some (Inr (sh, s5))"
    "fold (simulateCurrency p tr (map abs vs) (fst (seededRandom s2) < extremeEventProbability p)
             st sh) [0..<numCurrencies p] ([], [], s5) = (P, LP, s6)"
    "r = \<lparr>prices = P, trends = tr, volatilities = map abs vs,
           extremeEvent = (fst (seededRandom s2) < extremeEventProbability p),
           extremeEventIndex =
             (if fst (seededRandom s2) < extremeEventProbability p then Some st else None),
           realizedVolatility = calculateRealizedVolatilityFromLogPrices (LP ! 0) * 100,
           effectiveTrends = map effectiveTrend P\<rparr>"
  using assms unfolding simulateRun_def Let_def
  by (auto split: option.splits sum.splits prod.splits if_splits)


lemma eventStart_range:
  assumes "0 \<le> u" and "u < 1" and "d < (n::nat)"
  shows "0 \<le> \<lfloor>u * real_of_int (int n - int d)\<rfloor>
         \<and> \<lfloor>u * real_of_int (int n - int d)\<rfloor> < int n - int d"
proof -
  have pos: "0 < real_of_int (int n - int d)" using assms(3) by simp
  have "0 \<le> u * real_of_int (int n - int d)" using assms(1) pos by simp
  then have a: "0 \<le> \<lfloor>u * real_of_int (int n - int d)\<rfloor>" by simp
  have "u * real_of_int (int n - int d) < 1 * real_of_int (int n - int d)"
    using assms(2) pos by (intro mult_strict_right_mono)
  then have "u * real_of_int (int n - int d) < real_of_int (int n - int d)" by simp
  then have b: "\<lfloor>u * real_of_int (int n - int d)\<rfloor> < int n - int d"
    by (simp only: floor_less_iff)
  show ?thesis using a b by simp
qed

lemma simulateRun_properties:
  assumes run: "simulateRun p s = Some (Inr (r, s'))" and s: "0 \<le> s"
  shows "0 \<le> s'"
    and "length (prices r) = numCurrencies p"
    and "\<forall>row\<in>set (prices r). length row = min 500 (numObservations p)
              \<and> (\<forall>k. 1 \<le> k \<and> k < length row \<longrightarrow> 0.01 \<le> row ! k)
              \<and> (1 \<le> numObservations p \<longrightarrow>
                    row \<noteq> [] \<and> (\<exists>u. 0 \<le> u \<and> u < 1 \<and> row ! 0 = basePrice p * (0.5 + u)))"
    and "effectiveTrends r = map effectiveTrend (prices r)"
    and "extremeEvent r \<longrightarrow>
           (\<exists>k. extremeEventIndex r = Some k
              \<and> (extremeEventDuration p < numObservations p \<longrightarrow>
                    0 \<le> k \<and> k < int (numObservations p) - int (extremeEventDuration p)))"
    and "\<not> extremeEvent r \<longrightarrow> extremeEventIndex r = None"
    and "1 \<le> extremeEventProbability p \<longrightarrow> extremeEvent r"
    and "extremeEventProbability p \<le> 0 \<longrightarrow> \<not> extremeEvent r"
    and "\<exists>logSeries. length logSeries = min 500 (numObservations p)
           \<and> realizedVolatility r = calculateRealizedVolatilityFromLogPrices logSeries * 100"
proof -
  let ?n = "numCurrencies p"
  obtain tr s1 vs s2 st s4 sh s5 P LP where
    g1: "generateMultivariateNormal ?n 0 (trendVariance p) (trendCovariance p)
           seededNormalRandom s = Some (Inr (tr, s1))"
    and g2: "generateMultivariateNormal ?n (baseVolatility p / 100)
           ((baseVolatility p / 100)\<^sup>2 * 0.1) (volatilityCovariance p / 10000)
           seededNormalRandom s1 = Some (Inr (vs, s2))"
    and ev: "(if fst (seededRandom s2) < extremeEventProbability p
      then (\<lfloor>fst (seededRandom (snd (seededRandom s2)))
               * real_of_int (int (numObservations p) - int (extremeEventDuration p))\<rfloor>,
            snd (seededRandom (snd (seededRandom s2))))
      else (- 1, snd (seededRandom s2))) = (st, s4)"
    and g3: "(if fst (seededRandom s2) < extremeEventProbability p
      then generateMultivariateNormal ?n (- 0.1)
             (extremeEventVariance p / 10000) (extremeEventCovariance p / 10000)
             seededNormalRandom s4
      else Some (Inr ([], s4))) = Some (Inr (sh, s5))"
    and f: "fold (simulateCurrency p tr (map abs vs)
                   (fst (seededRandom s2) < extremeEventProbability p) st sh)
              [0..<?n] ([], [], s5) = (P, LP, s')"
    and r: "r = \<lparr>prices = P, trends = tr, volatilities = map abs vs,
           extremeEvent = (fst (seededRandom s2) < extremeEventProbability p),
           extremeEventIndex =
             (if fst (seededRandom s2) < extremeEventProbability p then Some st else None),
           realizedVolatility = calculateRealizedVolatilityFromLogPrices (LP ! 0) * 100,
           effectiveTrends = map effectiveTrend P\<rparr>"
    using run by (rule simulateRun_cases)
  have s1: "0 \<le> s1" and n: "0 < ?n"
    using generateMultivariateNormal_seeded_result [OF s g1] by simp_all
  have s2: "0 \<le> s2"
    using generateMultivariateNormal_seeded_result [OF s1 g2] by simp
  have s3: "0 \<le> snd (seededRandom s2)" using seededRandom_state [OF s2] by simp
  have s4: "0 \<le> s4"
    using ev s3 seededRandom_state [OF s3] by (auto split: if_splits)
  have s5: "0 \<le> s5"
  proof (cases "fst (seededRandom s2) < extremeEventProbability p")
    case True
    then show ?thesis using g3 generateMultivariateNormal_seeded_result [OF s4] by auto
  next
    case False
    then show ?thesis using g3 s4 by simp
  qed
  obtain rows lrows s'' where
    fr: "fold (simulateCurrency p tr (map abs vs)
                 (fst (seededRandom s2) < extremeEventProbability p) st sh)
           [0..<?n] ([], [], s5) = ([] @ rows, [] @ lrows, s'')"
    and l: "length rows = length [0..<?n]" "length lrows = length [0..<?n]"
    and q: "\<forall>row\<in>set rows. length row = min 500 (numObservations p)
              \<and> (\<forall>k. 1 \<le> k \<and> k < length row \<longrightarrow> 0.01 \<le> row ! k)
              \<and> (1 \<le> numObservations p \<longrightarrow>
                    row \<noteq> [] \<and> (\<exists>u. 0 \<le> u \<and> u < 1 \<and> row ! 0 = basePrice p * (0.5 + u)))"
    and q': "\<forall>lrow\<in>set lrows. length lrow = min 500 (numObservations p)"
    and s'': "0 \<le> s''"
    using fold_simulateCurrency_gen
            [where Q = "\<lambda>row. length row = min 500 (numObservations p)
              \<and> (\<forall>k. 1 \<le> k \<and> k < length row \<longrightarrow> 0.01 \<le> row ! k)
              \<and> (1 \<le> numObservations p \<longrightarrow>
                    row \<noteq> [] \<and> (\<exists>u. 0 \<le> u \<and> u < 1 \<and> row ! 0 = basePrice p * (0.5 + u)))"
               and Q' = "\<lambda>lrow. length lrow = min 500 (numObservations p)",
             OF simulateCurrency_result s5]
    by blast
  have P: "P = rows" and LP: "LP = lrows" and s'eq: "s' = s''"
    using f fr by simp_all
  show "0 \<le> s'" using s'' s'eq by simp
  show "length (prices r) = ?n" using l r P by simp
  show "\<forall>row\<in>set (prices r). length row = min 500 (numObservations p)
              \<and> (\<forall>k. 1 \<le> k \<and> k < length row \<longrightarrow> 0.01 \<le> row ! k)
              \<and> (1 \<le> numObservations p \<longrightarrow>
                    row \<noteq> [] \<and> (\<exists>u. 0 \<le> u \<and> u < 1 \<and> row ! 0 = basePrice p * (0.5 + u)))"
    using q unfolding r P by simp
  show "effectiveTrends r = map effectiveTrend (prices r)" unfolding r by simp
  show "extremeEvent r \<longrightarrow>
           (\<exists>k. extremeEventIndex r = Some k
              \<and> (extremeEventDuration p < numObservations p \<longrightarrow>
                    0 \<le> k \<and> k < int (numObservations p) - int (extremeEventDuration p)))"
  proof
    assume "extremeEvent r"
    then have e: "fst (seededRandom s2) < extremeEventProbability p" unfolding r by simp
    then have st: "st = \<lfloor>fst (seededRandom (snd (seededRandom s2)))
               * real_of_int (int (numObservations p) - int (extremeEventDuration p))\<rfloor>"
      using ev by simp
    have u: "0 \<le> fst (seededRandom (snd (seededRandom s2)))"
            "fst (seededRandom (snd (seededRandom s2))) < 1"
      using seededRandom_unit [OF s3] by simp_all
    have "extremeEventDuration p < numObservations p \<longrightarrow>
            0 \<le> st \<and> st < int (numObservations p) - int (extremeEventDuration p)"
      unfolding st using eventStart_range [OF u] by blast
    then show "\<exists>k. extremeEventIndex r = Some k
              \<and> (extremeEventDuration p < numObservations p \<longrightarrow>
                    0 \<le> k \<and> k < int (numObservations p) - int (extremeEventDuration p))"
      using e unfolding r by simp
  qed
  show "\<not> extremeEvent r \<longrightarrow> extremeEventIndex r = None" unfolding r by simp
  have u2: "0 \<le> fst (seededRandom s2)" "fst (seededRandom s2) < 1"
    using seededRandom_unit [OF s2] by simp_all
  show "1 \<le> extremeEventProbability p \<longrightarrow> extremeEvent r"
    using u2 unfolding r by simp
  show "extremeEventProbability p \<le> 0 \<longrightarrow> \<not> extremeEvent r"
    using u2 unfolding r by simp
  have "lrows ! 0 \<in> set lrows" using l n by (intro nth_mem) simp
  then have "length (LP ! 0) = min 500 (numObservations p)" using q' LP by simp
  then show "\<exists>logSeries. length logSeries = min 500 (numObservations p)
           \<and> realizedVolatility r = calculateRealizedVolatilityFromLogPrices logSeries * 100"
    unfolding r by auto
qed

lemma simulateRun_returns:
  assumes s: "0 \<le> s" and n: "0 < numCurrencies p"
  shows "\<exists>r s'. simulateRun p s = Some (Inr (r, s'))"
proof -
  let ?n = "numCurrencies p"
  obtain tr s1 where
    g1: "generateMultivariateNormal ?n 0 (trendVariance p) (trendCovariance p)
           seededNormalRandom s = Some (Inr (tr, s1))" and s1: "0 \<le> s1"
    using generateMultivariateNormal_seeded [OF s n] by blast
  obtain vs s2 where
    g2: "generateMultivariateNormal ?n (baseVolatility p / 100)
           ((baseVolatility p / 100)\<^sup>2 * 0.1) (volatilityCovariance p / 10000)
           seededNormalRandom s1 = Some (Inr (vs, s2))" and s2: "0 \<le> s2"
    using generateMultivariateNormal_seeded [OF s1 n] by blast
  obtain u s3 where u: "seededRandom s2 = (u, s3)" by (cases "seededRandom s2")
  have s3: "0 \<le> s3" using seededRandom_state [OF s2] u by simp
  show ?thesis
  proof (cases "u < extremeEventProbability p")
    case True
    obtain u' s4 where u': "seededRandom s3 = (u', s4)" by (cases "seededRandom s3")
    have s4: "0 \<le> s4" using seededRandom_state [OF s3] u' by simp
    obtain sh s5 where
      g3: "generateMultivariateNormal ?n (- 0.1) (extremeEventVariance p / 10000)
             (extremeEventCovariance p / 10000) seededNormalRandom s4 = Some (Inr (sh, s5))"
      using generateMultivariateNormal_seeded [OF s4 n] by blast
    show ?thesis
      using True g1 g2 u u' g3 by (simp add: simulateRun_def Let_def split: prod.splits)
  next
    case False
    then show ?thesis
      using g1 g2 u by (simp add: simulateRun_def Let_def split: prod.splits)
  qed
qed

lemma runSimulations_returns:
  assumes "0 \<le> s" and "0 < numCurrencies p"
  shows "\<exists>runs. runSimulations p k s = Some (Inr runs) \<and> length runs = k"
  using assms(1)
proof (induction k arbitrary: s)
  case 0
  then show ?case by simp
next
  case (Suc k)
  obtain r s' where r: "simulateRun p s = Some (Inr (r, s'))"
    using simulateRun_returns [OF Suc.prems assms(2)] by blast
  have "0 \<le> s'" using simulateRun_properties(1) [OF r Suc.prems] .
  then obtain runs where "runSimulations p k s' = Some (Inr runs)" "length runs = k"
    using Suc.IH by blast
  then show ?case by (simp add: r)
qed

lemma runSimulations_all:
  assumes Q: "\<And>s r s'. 0 \<le> s \<Longrightarrow> simulateRun p s = Some (Inr (r, s')) \<Longrightarrow> Q r"
    and "0 \<le> s" and "runSimulations p k s = Some (Inr runs)"
  shows "\<forall>r\<in>set runs. Q r"
  using assms(2,3)
proof (induction k arbitrary: s runs)
  case 0
  then show ?case by simp
next
  case (Suc k)
  from Suc.prems(2) obtain r s' rest where
    r: "simulateRun p s = Some (Inr (r, s'))"
    and rest: "runSimulations p k s' = Some (Inr rest)" and runs: "runs = r # rest"
    by (auto split: option.splits sum.splits prod.splits)
  have "0 \<le> s'" using simulateRun_properties(1) [OF r Suc.prems(1)] .
  then have "\<forall>r\<in>set rest. Q r" using Suc.IH rest by blast
  moreover have "Q r" using Q [OF Suc.prems(1) r] .
  ultimately show ?case using runs by simp
qed

lemma POST_Ok:
  assumes "POST p h = (Some (Ok res), h')"
  shows "runSimulations p (numSimulations p) (randomSeed p) = Some (Inr (simulations res))
         \<and> params res = p \<and> h' = h"
  using assms by (auto simp: POST_def split: option.splits sum.splits)

lemma POST_returns:
  assumes "0 \<le> randomSeed p" and "0 < numCurrencies p"
  shows "\<exists>res. POST p h = (Some (Ok res), h) \<and> length (simulations res) = numSimulations p"
proof -
  obtain runs where "runSimulations p (numSimulations p) (randomSeed p) = Some (Inr runs)"
    "length runs = numSimulations p"
    using runSimulations_returns [OF assms] by blast
  then show ?thesis by (simp add: POST_def)
qed

lemma POST_runs:
  assumes Q: "\<And>s r s'. 0 \<le> s \<Longrightarrow> simulateRun p s = Some (Inr (r, s')) \<Longrightarrow> Q r"
    and "0 \<le> randomSeed p" and "POST p h = (Some (Ok res), h')"
  shows "\<forall>r\<in>set (simulations res). Q r"
proof -
  have "runSimulations p (numSimulations p) (randomSeed p) = Some (Inr (simulations res))"
    using POST_Ok [OF assms(3)] by simp
  then show ?thesis using Q assms(2) by (rule runSimulations_all [rotated 2])
qed

lemma first_run:
  assumes "0 \<le> randomSeed p" and "0 < numCurrencies p" and "0 < numSimulations p"
  shows "\<exists>res r. POST p h = (Some (Ok res), h) \<and> r \<in> set (simulations res)"
proof -
  obtain res where res: "POST p h = (Some (Ok res), h)"
    "length (simulations res) = numSimulations p"
    using POST_returns [OF assms(1,2)] by blast
  then have "simulations res \<noteq> []" using assms(3) by auto
  then have "hd (simulations res) \<in> set (simulations res)" by simp
  then show ?thesis using res(1) by blast
qed

lemma first_series:
  assumes "0 \<le> randomSeed p" and "0 < numCurrencies p" and "0 < numSimulations p"
  shows "\<exists>res r series. POST p h = (Some (Ok res), h) \<and> r \<in> set (simulations res)
           \<and> series \<in> set (prices r) \<and> length series = min 500 (numObservations p)"
proof -
  obtain res r where res: "POST p h = (Some (Ok res), h)" and r: "r \<in> set (simulations res)"
    using first_run [OF assms] by blast
  have "\<forall>r\<in>set (simulations res). length (prices r) = numCurrencies p
          \<and> (\<forall>row\<in>set (prices r). length row = min 500 (numObservations p))"
  proof (rule POST_runs [OF _ assms(1) res])
    fix s r s' assume "0 \<le> s" "simulateRun p s = Some (Inr (r, s'))"
    then show "length (prices r) = numCurrencies p
          \<and> (\<forall>row\<in>set (prices r). length row = min 500 (numObservations p))"
      using simulateRun_properties(2,3) [of p s r s'] by simp
  qed
  then have l: "length (prices r) = numCurrencies p"
    and a: "\<forall>row\<in>set (prices r). length row = min 500 (numObservations p)"
    using r by blast+
  have "prices r \<noteq> []" using l assms(2) by auto
  then have "hd (prices r) \<in> set (prices r)" by simp
  then show ?thesis using res r a by blast
qed

section \<open>The claims\<close>

subsection \<open>C9: range of the seeded generator\<close>



text \<open>
  The hypothesis is needed: from the seed \<open>-6\<close> the first call leaves a negative state
  and returns a negative value.
\<close>

lemma seededRandom_negative_seed: "seededRandom (- 6) = (- 6509 / 233280, - 6509)"
  by (simp add: seededRandom_def signed_modulo_int_def)

subsection \<open>C3: what the downsampler selects\<close>




subsection \<open>C5: the correlated vector is \<open>mean + L \<cdot> Z\<close>\<close>



subsection \<open>C8: full correlation gives equal components\<close>



subsection \<open>C6: the effective trend\<close>

text \<open>
  C6, as the code has it. The effective trend of a series of at least two positive prices
  is \<open>(finalPrice / initialPrice) ^ (1 / yearsElapsed) - 1\<close>, where \<open>yearsElapsed\<close> is the
  number of steps of the series, its length less one, divided by 252.
\<close>

theorem effectiveTrend_formula:
  assumes "2 \<le> length series" and "\<forall>x\<in>set series. 0 < x"
  shows "effectiveTrend series
           = (last series / hd series) powr (1 / ((real (length series) - 1) / 252)) - 1"
proof -
  have ne: "series \<noteq> []" using assms(1) by auto
  then show ?thesis
    by (simp add: effectiveTrend_def Let_def last_conv_nth hd_conv_nth)
qed

theorem effectiveTrend_formula_witness:
  "(2::nat) \<le> length [1::real, 2] \<and> effectiveTrend [1, 2] = 2 powr 252 - 1"
  using effectiveTrend_formula [of "[1, 2]"] by simp

text \<open>
  The claim as stated divides the length itself by the periods per year. On the series
  \<open>[1, 2]\<close> with 252 periods that is the exponent 126, where the code has 252.
\<close>

theorem effectiveTrend_not_length_over_periods:
  "effectiveTrend [1, 2] \<noteq> effectiveTrend_spec 252 [1, 2]"
  by (simp add: effectiveTrend_def effectiveTrend_spec_def)

subsection \<open>C7: the index of the extreme event\<close>

text \<open>
  C7. For every run the handler produces from a nonnegative seed and an observation count
  above the duration of the extreme event: if the run's \<open>extremeEvent\<close> flag is true, its
  \<open>extremeEventIndex\<close> is an integer in \<open>[0, numObservations - extremeEventDuration)\<close>; if
  the flag is false, the index is \<open>null\<close>.
\<close>

theorem extremeEventIndex_valid:
  assumes "0 \<le> randomSeed p" and "extremeEventDuration p < numObservations p"
    and "POST p h = (Some (Ok res), h')" and "r \<in> set (simulations res)"
  shows "(extremeEvent r \<longrightarrow>
            (\<exists>k. extremeEventIndex r = Some k \<and> 0 \<le> k
                \<and> k < int (numObservations p) - int (extremeEventDuration p)))
       \<and> (\<not> extremeEvent r \<longrightarrow> extremeEventIndex r = None)"
proof -
  have "\<forall>r\<in>set (simulations res).
          (extremeEvent r \<longrightarrow>
            (\<exists>k. extremeEventIndex r = Some k \<and> 0 \<le> k
                \<and> k < int (numObservations p) - int (extremeEventDuration p)))
          \<and> (\<not> extremeEvent r \<longrightarrow> extremeEventIndex r = None)"
  proof (rule POST_runs [OF _ assms(1,3)])
    fix s r s' assume s: "0 \<le> s" and run: "simulateRun p s = Some (Inr (r, s'))"
    show "(extremeEvent r \<longrightarrow>
            (\<exists>k. extremeEventIndex r = Some k \<and> 0 \<le> k
                \<and> k < int (numObservations p) - int (extremeEventDuration p)))
          \<and> (\<not> extremeEvent r \<longrightarrow> extremeEventIndex r = None)"
      using simulateRun_properties(5,6) [OF run s] assms(2) by blast
  qed
  then show ?thesis using assms(4) by blast
qed

text \<open>
  With the form's default values and the probability set to one every run has an event;
  with the probability set to zero none has.
\<close>

theorem extremeEventIndex_valid_witness:
  "(\<exists>res r k. POST (defaultValues\<lparr>extremeEventProbability := 1\<rparr>) (\<lambda>_. 0) = (Some (Ok res), \<lambda>_. 0)
       \<and> r \<in> set (simulations res) \<and> extremeEvent r
       \<and> extremeEventIndex r = Some k \<and> 0 \<le> k \<and> k < 260640)
   \<and> (\<exists>res r. POST (defaultValues\<lparr>extremeEventProbability := 0\<rparr>) (\<lambda>_. 0) = (Some (Ok res), \<lambda>_. 0)
       \<and> r \<in> set (simulations res) \<and> \<not> extremeEvent r \<and> extremeEventIndex r = None)"
proof
  let ?p = "defaultValues\<lparr>extremeEventProbability := 1\<rparr>"
  have seed: "0 \<le> randomSeed ?p" and dur: "extremeEventDuration ?p < numObservations ?p"
    by (simp_all add: defaultValues_def)
  obtain res r where res: "POST ?p (\<lambda>_. 0) = (Some (Ok res), \<lambda>_. 0)" and r: "r \<in> set (simulations res)"
    using first_run [of ?p "\<lambda>_. 0"] by (auto simp: defaultValues_def)
  have "\<forall>r\<in>set (simulations res). extremeEvent r"
  proof (rule POST_runs [OF _ seed res])
    fix s r s' assume "0 \<le> s" "simulateRun ?p s = Some (Inr (r, s'))"
    then show "extremeEvent r"
      using simulateRun_properties(7) [of ?p s r s'] by (simp add: defaultValues_def)
  qed
  then have e: "extremeEvent r" using r by blast
  then obtain k where "extremeEventIndex r = Some k" "0 \<le> k"
    "k < int (numObservations ?p) - int (extremeEventDuration ?p)"
    using extremeEventIndex_valid [OF seed dur res r] by blast
  then show "\<exists>res r k. POST ?p (\<lambda>_. 0) = (Some (Ok res), \<lambda>_. 0)
       \<and> r \<in> set (simulations res) \<and> extremeEvent r
       \<and> extremeEventIndex r = Some k \<and> 0 \<le> k \<and> k < 260640"
    using res r e by (auto simp: defaultValues_def)
next
  let ?p = "defaultValues\<lparr>extremeEventProbability := 0\<rparr>"
  have seed: "0 \<le> randomSeed ?p" and dur: "extremeEventDuration ?p < numObservations ?p"
    by (simp_all add: defaultValues_def)
  obtain res r where res: "POST ?p (\<lambda>_. 0) = (Some (Ok res), \<lambda>_. 0)" and r: "r \<in> set (simulations res)"
    using first_run [of ?p "\<lambda>_. 0"] by (auto simp: defaultValues_def)
  have "\<forall>r\<in>set (simulations res). \<not> extremeEvent r"
  proof (rule POST_runs [OF _ seed res])
    fix s r s' assume "0 \<le> s" "simulateRun ?p s = Some (Inr (r, s'))"
    then show "\<not> extremeEvent r"
      using simulateRun_properties(8) [of ?p s r s'] by (simp add: defaultValues_def)
  qed
  then have e: "\<not> extremeEvent r" using r by blast
  then have "extremeEventIndex r = None"
    using extremeEventIndex_valid [OF seed dur res r] by blast
  then show "\<exists>res r. POST ?p (\<lambda>_. 0) = (Some (Ok res), \<lambda>_. 0)
       \<and> r \<in> set (simulations res) \<and> \<not> extremeEvent r \<and> extremeEventIndex r = None"
    using res r e by blast
qed

subsection \<open>C4: the floor of the stored prices\<close>




subsection \<open>C10: downsampling keeps the first element\<close>

text \<open>
  C10. For every series that is not empty and every \<open>targetLength \<ge> 1\<close>, the downsampled
  series is not empty and its first element is the first element of the series. Hence, for
  at least one observation, the series an iteration of the loop over the assets pushes to
  \<open>prices\<close> starts with the initial price of the asset's full path,
  \<open>basePrice * (0.5 + u)\<close> for the draw \<open>u\<close> made at that point.
\<close>

theorem downsampling_keeps_initial_price:
  "(series \<noteq> [] \<and> 1 \<le> targetLength \<longrightarrow>
      samplePath series targetLength \<noteq> [] \<and> samplePath series targetLength ! 0 = series ! 0)
   \<and> (1 \<le> numObservations p \<longrightarrow>
        (case fullPaths p tr vol event eventStart eventShocks c s of
           (pricePath, logPricePath, s1) \<Rightarrow>
             (case simulateCurrency p tr vol event eventStart eventShocks c
                     (pricesAcc, logPricesAcc, s) of
                (pricesAcc', logPricesAcc', s2) \<Rightarrow>
                  pricesAcc' = pricesAcc @ [last pricesAcc'] \<and> last pricesAcc' \<noteq> []
                  \<and> last pricesAcc' ! 0 = pricePath ! 0
                  \<and> pricePath ! 0 = basePrice p * (0.5 + fst (seededRandom s)))))"
proof (intro conjI impI)
  assume "series \<noteq> [] \<and> 1 \<le> targetLength"
  then show "samplePath series targetLength \<noteq> []"
    and "samplePath series targetLength ! 0 = series ! 0"
    using samplePath_first_kept [of series targetLength] by simp_all
next
  assume n: "1 \<le> numObservations p"
  let ?i = "basePrice p * (0.5 + fst (seededRandom s))"
  let ?T = "min 500 (numObservations p)"
  obtain xs ys s' where
    f: "fullPaths p tr vol event eventStart eventShocks c s = (?i # xs, ln ?i # ys, s')"
    using fullPaths_result [of p tr vol event eventStart eventShocks c s] by blast
  have sc: "simulateCurrency p tr vol event eventStart eventShocks c (pricesAcc, logPricesAcc, s)
              = (pricesAcc @ [samplePath (?i # xs) ?T],
                 logPricesAcc @ [samplePath (ln ?i # ys) ?T], s')"
    by (simp add: simulateCurrency_def f Let_def)
  have "1 \<le> ?T" using n by simp
  then have "samplePath (?i # xs) ?T \<noteq> [] \<and> samplePath (?i # xs) ?T ! 0 = (?i # xs) ! 0"
    by (intro samplePath_first_kept) simp_all
  then show "case fullPaths p tr vol event eventStart eventShocks c s of
           (pricePath, logPricePath, s1) \<Rightarrow>
             (case simulateCurrency p tr vol event eventStart eventShocks c
                     (pricesAcc, logPricesAcc, s) of
                (pricesAcc', logPricesAcc', s2) \<Rightarrow>
                  pricesAcc' = pricesAcc @ [last pricesAcc'] \<and> last pricesAcc' \<noteq> []
                  \<and> last pricesAcc' ! 0 = pricePath ! 0
                  \<and> pricePath ! 0 = basePrice p * (0.5 + fst (seededRandom s)))"
    by (simp add: f sc)
qed

theorem downsampling_keeps_initial_price_witness:
  "samplePath [10, 20, 30, 40, 50] 3 ! 0 = 10
   \<and> (case fullPaths defaultValues [0, 0, 0, 0, 0] [1, 1, 1, 1, 1] False (- 1) [] 0 2151 of
        (pricePath, logPricePath, s1) \<Rightarrow>
          (case simulateCurrency defaultValues [0, 0, 0, 0, 0] [1, 1, 1, 1, 1] False (- 1) [] 0
                  ([], [], 2151) of
             (pricesAcc', logPricesAcc', s2) \<Rightarrow>
               last pricesAcc' ! 0 = pricePath ! 0
               \<and> pricePath ! 0 = 2000 * (0.5 + 226948 / 233280)))"
proof -
  have a: "samplePath [10, 20, 30, 40, 50] 3 ! 0 = 10"
    using downsampling_keeps_initial_price
            [where series = "[10, 20, 30, 40, 50]" and targetLength = 3]
    by simp
  have u: "fst (seededRandom 2151) = 226948 / 233280"
    by (simp add: seededRandom_def signed_modulo_int_def)
  have n: "1 \<le> numObservations defaultValues" by (simp add: defaultValues_def)
  have b: "basePrice defaultValues = 2000" by (simp add: defaultValues_def)
  show ?thesis
    using a n u b
      downsampling_keeps_initial_price
        [where p = defaultValues and tr = "[0, 0, 0, 0, 0]" and vol = "[1, 1, 1, 1, 1]"
           and event = False and eventStart = "- 1" and eventShocks = "[]" and c = 0
           and s = 2151 and pricesAcc = "[]" and logPricesAcc = "[]"]
    by (auto split: prod.splits)
qed

subsection \<open>C1: the result depends on the parameters only\<close>


subsection \<open>C2: the series the metrics are computed from\<close>

text \<open>
  C2 fails on the handler; what it does instead is proved here. For every run the handler
  produces (nonnegative seed) from more than 500 observations, \<open>effectiveTrends\<close> is the
  effective trend of each stored series of \<open>prices\<close>, and these are the downsampled
  series, of 500 points, fewer than the observations of the full path; the realized
  volatility is likewise computed from a series of 500 log prices.
\<close>

theorem metrics_read_downsampled_series:
  assumes "0 \<le> randomSeed p" and "500 < numObservations p"
    and "POST p h = (Some (Ok res), h')" and "r \<in> set (simulations res)"
  shows "effectiveTrends r = map effectiveTrend (prices r)
       \<and> (\<forall>series\<in>set (prices r). length series = 500 \<and> length series < numObservations p)
       \<and> (\<exists>logSeries. length logSeries = 500
             \<and> realizedVolatility r = calculateRealizedVolatilityFromLogPrices logSeries * 100)"
proof -
  let ?Q = "\<lambda>r. effectiveTrends r = map effectiveTrend (prices r)
       \<and> (\<forall>series\<in>set (prices r). length series = min 500 (numObservations p))
       \<and> (\<exists>logSeries. length logSeries = min 500 (numObservations p)
             \<and> realizedVolatility r = calculateRealizedVolatilityFromLogPrices logSeries * 100)"
  have "\<forall>r\<in>set (simulations res). ?Q r"
  proof (rule POST_runs [OF _ assms(1,3)])
    fix s r s' assume "0 \<le> s" "simulateRun p s = Some (Inr (r, s'))"
    then show "?Q r"
      using simulateRun_properties(3,4,9) [of p s r s'] by simp
  qed
  then have "?Q r" using assms(4) by blast
  moreover have "min 500 (numObservations p) = 500" using assms(2) by simp
  ultimately show ?thesis using assms(2) by simp
qed

theorem metrics_read_downsampled_series_witness:
  "\<exists>res r series. POST defaultValues (\<lambda>_. 0) = (Some (Ok res), \<lambda>_. 0)
       \<and> r \<in> set (simulations res) \<and> series \<in> set (prices r)
       \<and> effectiveTrends r = map effectiveTrend (prices r)
       \<and> length series = 500 \<and> numObservations defaultValues = 262080"
proof -
  have seed: "0 \<le> randomSeed defaultValues" and n: "500 < numObservations defaultValues"
    by (simp_all add: defaultValues_def)
  obtain res r series where res: "POST defaultValues (\<lambda>_. 0) = (Some (Ok res), \<lambda>_. 0)"
    and r: "r \<in> set (simulations res)" and ser: "series \<in> set (prices r)"
    using first_series [of defaultValues "\<lambda>_. 0"] by (auto simp: defaultValues_def)
  have "effectiveTrends r = map effectiveTrend (prices r)
       \<and> (\<forall>series\<in>set (prices r). length series = 500 \<and> length series < numObservations defaultValues)"
    using metrics_read_downsampled_series [OF seed n res r] by blast
  then show ?thesis using res r ser by (auto simp: defaultValues_def)
qed

text \<open>
  The difference shows in the value: on a path of 501 prices that stays at 1 and ends at 2
  the downsampled series misses the last price, and its effective trend is 0.
\<close>

lemma sample_of_501:
  "samplePath (replicate 500 1 @ [2]) 500 = replicate 500 1"
proof -
  have "samplePath (replicate 500 1 @ [2]) 500
          = map (\<lambda>i. (replicate 500 1 @ [2]) ! (i * 501 div 500)) [0..<500]"
    using samplePath_long [of 500 "replicate 500 1 @ [2]"] by simp
  also have "\<dots> = map (\<lambda>i. 1) [0..<500]"
  proof (rule map_cong [OF refl])
    fix i :: nat assume "i \<in> set [0..<500]"
    then have i: "i < 500" by simp
    then have "i * 501 div 500 = i" by simp
    then show "(replicate 500 1 @ [2]) ! (i * 501 div 500) = (1::real)"
      using i by (simp add: nth_append)
  qed
  also have "\<dots> = replicate 500 1" by (simp add: map_replicate_const)
  finally show ?thesis .
qed

lemma effectiveTrend_of_sample_differs:
  "effectiveTrend (samplePath (replicate 500 1 @ [2]) 500) = 0
   \<and> effectiveTrend (replicate 500 1 @ [2]) = 2 powr (252 / 500) - 1
   \<and> effectiveTrend (samplePath (replicate 500 1 @ [2]) 500)
       \<noteq> effectiveTrend (replicate 500 1 @ [2])"
proof -
  have a: "effectiveTrend (samplePath (replicate 500 1 @ [2]) 500) = 0"
    by (simp add: sample_of_501 effectiveTrend_def)
  have b: "effectiveTrend (replicate 500 1 @ [2]) = 2 powr (252 / 500) - 1"
    by (simp add: effectiveTrend_def nth_append)
  have "(2::real) powr (252 / 500) \<noteq> 2 powr 0"
    by (simp only: powr_inj)
  then have "(2::real) powr (252 / 500) - 1 \<noteq> 0" by simp
  then show ?thesis using a b by simp
qed

end
